theory Spec2Isabelle
  imports Main "HOL-Library.Word"
begin

section \<open>Data model of V5.ino\<close>

text \<open>
  The sketch runs on an ESP32: \<open>unsigned long\<close>, \<open>long\<close> and \<open>int\<close> are 32 bits wide.
  Times and counters are \<open>unsigned long\<close> and wrap around; positions are \<open>long\<close> and are
  only compared for equality and subtracted.
\<close>

type_synonym ulong = "32 word"
type_synonym long = "32 word"

definition DOOR_HOLD_TIME_MS :: ulong where
  "DOOR_HOLD_TIME_MS = 3000"

definition POS_CLOSED :: long where
  "POS_CLOSED = 0"

definition POS_OPEN :: long where
  "POS_OPEN = 1400"

definition MAX_GOATS_IN_BARN :: nat where
  "MAX_GOATS_IN_BARN = 10"

datatype MotorState_t =
    MOTOR_IDLE
  | MOTOR_OPENING
  | MOTOR_OPEN_HOLDING
  | MOTOR_CLOSING
  | MOTOR_MANUAL_OPEN
  | MOTOR_ERROR

text \<open>
  The stepper object of the AccelStepper library, as far as the sketch reads and writes it:
  the current and the target position. \<open>moveTo\<close> stores the target, \<open>distanceToGo\<close> is
  target minus current position, \<open>currentPosition\<close> reads the current position. What
  \<open>run()\<close> does to the object depends on the library's speed profile and on the clock;
  every function that calls it takes the effect of that call as the parameter \<open>run\<close>.
\<close>

record AccelStepper =
  currentPos :: long
  targetPos :: long

definition moveTo :: "long \<Rightarrow> AccelStepper \<Rightarrow> AccelStepper" where
  "moveTo absolute m = m\<lparr>targetPos := absolute\<rparr>"

definition distanceToGo :: "AccelStepper \<Rightarrow> long" where
  "distanceToGo m = targetPos m - currentPos m"

definition currentPosition :: "AccelStepper \<Rightarrow> long" where
  "currentPosition m = currentPos m"

text \<open>The card identifier the MFRC522 driver leaves in \<open>reader.uid\<close>.\<close>

record Uid =
  uid_size :: "8 word"
  uidByte :: "8 word list"

text \<open>
  One constructor per \<open>Serial.println\<close>/\<open>Serial.printf\<close> call of the functions modelled
  here, carrying the values the call prints (for a detected card: the reader number, the
  name and the identifier whose hexadecimal rendering is printed).
\<close>

datatype log_line =
    LogMotorBusy
  | LogMotorOpening
  | LogMotorAlreadyClosed
  | LogMotorClosingManual
  | LogMotorManualOpenCmd
  | LogMotorManualCloseCmd
  | LogDoorOpen long ulong
  | LogDoorClosed long ulong
  | LogWarnExpected long long
  | LogManualStaysOpen
  | LogClosingAuto
  | LogMotorReady
  | LogSeparator
  | LogMotorErrorState
  | LogBarnAlreadyInside string
  | LogBarnEntered string nat
  | LogBarnFull
  | LogBarnExited string nat
  | LogBarnNotFound string
  | LogRfidDetected int string Uid
  | LogRfidIgnored

text \<open>
  The global variables of the sketch, and the serial output written so far.
  \<open>barnOccupants\<close> is the array \<open>String barnOccupants[MAX_GOATS_IN_BARN]\<close>, of which the
  first \<open>barnPopulation\<close> slots are in use; \<open>barnPopulation\<close> is an \<open>int\<close> in the source
  that is only ever incremented below the capacity and decremented after an index below
  it was found, so it is a \<open>nat\<close> here.
\<close>

record sys =
  motor :: AccelStepper
  motorState :: MotorState_t
  motorStateStartTime :: ulong
  motorMoveStartTime :: ulong
  manualMode :: bool
  totalMoves :: ulong
  failedMoves :: ulong
  lastCardStateR1 :: bool
  lastCardStateR2 :: bool
  barnOccupants :: "string list"
  barnPopulation :: nat
  serial :: "log_line list"

definition Serial_print :: "log_line \<Rightarrow> sys \<Rightarrow> sys" where
  "Serial_print l s = s\<lparr>serial := serial s @ [l]\<rparr>"

section \<open>Motor control functions\<close>

text \<open>
  Each function takes the values its calls of \<open>millis()\<close> return, in the order of the calls.
\<close>

definition motorOpenDoor :: "ulong \<Rightarrow> ulong \<Rightarrow> sys \<Rightarrow> sys" where
  "motorOpenDoor t1 t2 s =
     (if motorState s \<noteq> MOTOR_IDLE \<and> motorState s \<noteq> MOTOR_MANUAL_OPEN
      then Serial_print LogMotorBusy s
      else
        let s1 = Serial_print LogMotorOpening s;
            s2 = s1\<lparr>motor := moveTo POS_OPEN (motor s1)\<rparr>;
            s3 = s2\<lparr>motorState := MOTOR_OPENING\<rparr>;
            s4 = s3\<lparr>motorStateStartTime := t1\<rparr>;
            s5 = s4\<lparr>motorMoveStartTime := t2\<rparr>
        in s5\<lparr>totalMoves := totalMoves s5 + 1\<rparr>)"

definition motorCloseDoor :: "ulong \<Rightarrow> sys \<Rightarrow> sys" where
  "motorCloseDoor t1 s =
     (if motorState s = MOTOR_IDLE
      then Serial_print LogMotorAlreadyClosed s
      else
        let s1 = Serial_print LogMotorClosingManual s;
            s2 = s1\<lparr>motor := moveTo POS_CLOSED (motor s1)\<rparr>;
            s3 = s2\<lparr>motorState := MOTOR_CLOSING\<rparr>;
            s4 = s3\<lparr>motorMoveStartTime := t1\<rparr>
        in s4\<lparr>manualMode := False\<rparr>)"

definition motorManualOpen :: "ulong \<Rightarrow> ulong \<Rightarrow> sys \<Rightarrow> sys" where
  "motorManualOpen t1 t2 s =
     (let s1 = Serial_print LogMotorManualOpenCmd s;
          s2 = s1\<lparr>manualMode := True\<rparr>
      in motorOpenDoor t1 t2 s2)"

definition motorManualClose :: "ulong \<Rightarrow> sys \<Rightarrow> sys" where
  "motorManualClose t1 s = motorCloseDoor t1 (Serial_print LogMotorManualCloseCmd s)"

text \<open>
  \<open>motorUpdate\<close>: \<open>run\<close> is the effect of \<open>motor.run()\<close>. In the opening branch \<open>t1\<close> is the
  clock read for the logged move time and \<open>t2\<close> the one stored as the hold start; in the
  holding branch \<open>t1\<close> is the clock compared with the hold start and \<open>t2\<close> the one stored as
  the move start; in the closing branch \<open>t1\<close> is the clock read for the logged move time.
\<close>

definition motorUpdate ::
  "(AccelStepper \<Rightarrow> AccelStepper) \<Rightarrow> ulong \<Rightarrow> ulong \<Rightarrow> sys \<Rightarrow> sys" where
  "motorUpdate run t1 t2 s =
     (let s0 = s\<lparr>motor := run (motor s)\<rparr> in
      case motorState s0 of
        MOTOR_IDLE \<Rightarrow> s0
      | MOTOR_OPENING \<Rightarrow>
          if distanceToGo (motor s0) = 0 then
            let moveTime = t1 - motorMoveStartTime s0;
                finalPos = currentPosition (motor s0);
                s1 = Serial_print (LogDoorOpen finalPos moveTime) s0;
                s2 = (if finalPos \<noteq> POS_OPEN
                      then let w = Serial_print (LogWarnExpected POS_OPEN finalPos) s1
                           in w\<lparr>failedMoves := failedMoves w + 1\<rparr>
                      else s1)
            in if manualMode s2
               then Serial_print LogManualStaysOpen (s2\<lparr>motorState := MOTOR_MANUAL_OPEN\<rparr>)
               else (s2\<lparr>motorState := MOTOR_OPEN_HOLDING\<rparr>)\<lparr>motorStateStartTime := t2\<rparr>
          else s0
      | MOTOR_OPEN_HOLDING \<Rightarrow>
          if t1 - motorStateStartTime s0 \<ge> DOOR_HOLD_TIME_MS then
            let s1 = Serial_print LogClosingAuto s0;
                s2 = s1\<lparr>motor := moveTo POS_CLOSED (motor s1)\<rparr>;
                s3 = s2\<lparr>motorState := MOTOR_CLOSING\<rparr>
            in s3\<lparr>motorMoveStartTime := t2\<rparr>
          else s0
      | MOTOR_MANUAL_OPEN \<Rightarrow> s0
      | MOTOR_CLOSING \<Rightarrow>
          if distanceToGo (motor s0) = 0 then
            let moveTime = t1 - motorMoveStartTime s0;
                finalPos = currentPosition (motor s0);
                s1 = Serial_print (LogDoorClosed finalPos moveTime) s0;
                s2 = (if finalPos \<noteq> POS_CLOSED
                      then let w = Serial_print (LogWarnExpected POS_CLOSED finalPos) s1
                           in w\<lparr>failedMoves := failedMoves w + 1\<rparr>
                      else s1);
                s3 = s2\<lparr>motorState := MOTOR_IDLE\<rparr>
            in Serial_print LogSeparator (Serial_print LogMotorReady s3)
          else s0
      | MOTOR_ERROR \<Rightarrow> Serial_print LogMotorErrorState s0)"

definition motorIsIdle :: "sys \<Rightarrow> bool" where
  "motorIsIdle s = (motorState s = MOTOR_IDLE \<or> motorState s = MOTOR_MANUAL_OPEN)"

text \<open>
  The \<open>default\<close> branch of the source's \<open>switch\<close> (\<open>"unknown"\<close>) has no value of the
  enumeration left to take it.
\<close>

fun motorGetStatus :: "MotorState_t \<Rightarrow> string" where
  "motorGetStatus MOTOR_IDLE = ''closed''"
| "motorGetStatus MOTOR_OPENING = ''opening''"
| "motorGetStatus MOTOR_OPEN_HOLDING = ''open''"
| "motorGetStatus MOTOR_MANUAL_OPEN = ''manual_open''"
| "motorGetStatus MOTOR_CLOSING = ''closing''"
| "motorGetStatus MOTOR_ERROR = ''error''"

section \<open>Goat tracking functions\<close>

text \<open>
  The scan \<open>for (i = 0; i < barnPopulation; i++) if (barnOccupants[i] == name) ...\<close> of
  both functions, from index \<open>i\<close> on: the first index holding \<open>name\<close>, if there is one.
\<close>

function barnScan :: "string list \<Rightarrow> nat \<Rightarrow> string \<Rightarrow> nat \<Rightarrow> nat option" where
  "barnScan occ pop name i =
     (if i < pop
      then (if occ ! i = name then Some i else barnScan occ pop name (Suc i))
      else None)"
  by pat_completeness auto
termination
  by (relation "measure (\<lambda>(occ, pop, name, i). pop - i)") auto

text \<open>The inner loop \<open>for (j = i; j < barnPopulation - 1; j++) occ[j] = occ[j + 1]\<close>.\<close>

function barnShift :: "string list \<Rightarrow> nat \<Rightarrow> nat \<Rightarrow> string list" where
  "barnShift occ pop j =
     (if j < pop - 1
      then barnShift (occ[j := occ ! (j + 1)]) pop (Suc j)
      else occ)"
  by pat_completeness auto
termination
  by (relation "measure (\<lambda>(occ, pop, j). pop - 1 - j)") auto

declare barnScan.simps [simp del] barnShift.simps [simp del]

definition barnAddGoat :: "string \<Rightarrow> sys \<Rightarrow> sys" where
  "barnAddGoat name s =
     (case barnScan (barnOccupants s) (barnPopulation s) name 0 of
        Some i \<Rightarrow> Serial_print (LogBarnAlreadyInside name) s
      | None \<Rightarrow>
          if barnPopulation s < MAX_GOATS_IN_BARN then
            let s1 = s\<lparr>barnOccupants := (barnOccupants s)[barnPopulation s := name]\<rparr>;
                s2 = s1\<lparr>barnPopulation := barnPopulation s1 + 1\<rparr>
            in Serial_print (LogBarnEntered name (barnPopulation s2)) s2
          else Serial_print LogBarnFull s)"

definition barnRemoveGoat :: "string \<Rightarrow> sys \<Rightarrow> sys" where
  "barnRemoveGoat name s =
     (case barnScan (barnOccupants s) (barnPopulation s) name 0 of
        Some i \<Rightarrow>
          let s1 = s\<lparr>barnOccupants := barnShift (barnOccupants s) (barnPopulation s) i\<rparr>;
              s2 = s1\<lparr>barnPopulation := barnPopulation s1 - 1\<rparr>
          in Serial_print (LogBarnExited name (barnPopulation s2)) s2
      | None \<Rightarrow> Serial_print (LogBarnNotFound name) s)"

text \<open>
  The occupancy list: the slots of the array in use, in order. The array has
  \<open>MAX_GOATS_IN_BARN\<close> slots; a state is well formed when the population counter stays
  within them.
\<close>

definition occupancy :: "sys \<Rightarrow> string list" where
  "occupancy s = take (barnPopulation s) (barnOccupants s)"

definition barn_wf :: "sys \<Rightarrow> bool" where
  "barn_wf s =
     (length (barnOccupants s) = MAX_GOATS_IN_BARN \<and> barnPopulation s \<le> MAX_GOATS_IN_BARN)"

datatype barn_op = AddIfAbsent string | RemoveIfPresent string

fun barn_apply :: "barn_op \<Rightarrow> sys \<Rightarrow> sys" where
  "barn_apply (AddIfAbsent name) s = barnAddGoat name s"
| "barn_apply (RemoveIfPresent name) s = barnRemoveGoat name s"

fun barn_run :: "barn_op list \<Rightarrow> sys \<Rightarrow> sys" where
  "barn_run [] s = s"
| "barn_run (x # xs) s = barn_run xs (barn_apply x s)"

text \<open>The state of the globals when \<open>setup()\<close> has run: an empty barn, the door closed.\<close>

definition initial :: sys where
  "initial =
     \<lparr>motor = \<lparr>currentPos = POS_CLOSED, targetPos = POS_CLOSED\<rparr>,
      motorState = MOTOR_IDLE,
      motorStateStartTime = 0,
      motorMoveStartTime = 0,
      manualMode = False,
      totalMoves = 0,
      failedMoves = 0,
      lastCardStateR1 = False,
      lastCardStateR2 = False,
      barnOccupants = replicate MAX_GOATS_IN_BARN [],
      barnPopulation = 0,
      serial = []\<rparr>"

section \<open>RFID functions\<close>

definition knownGoats :: "(string \<times> 8 word list) list" where
  "knownGoats =
     [(''Bron'', [0x64, 0x3E, 0x32, 0x03]),
      (''TFrance'', [0xB9, 0x72, 0xA9, 0x11]),
      (''BigO'', [0xF9, 0xEF, 0x61, 0x12])]"

text \<open>The inner loop of \<open>rfidIdentifyGoat\<close>: the four bytes compared from index \<open>j\<close> on.\<close>

function uidMatch :: "8 word list \<Rightarrow> 8 word list \<Rightarrow> nat \<Rightarrow> bool" where
  "uidMatch known bytes j =
     (if j < 4
      then (if known ! j \<noteq> bytes ! j then False else uidMatch known bytes (Suc j))
      else True)"
  by pat_completeness auto
termination
  by (relation "measure (\<lambda>(known, bytes, j). 4 - j)") auto

declare uidMatch.simps [simp del]

text \<open>The outer loop over the table; \<open>None\<close> is the source's \<open>nullptr\<close>.\<close>

fun identifyLoop :: "(string \<times> 8 word list) list \<Rightarrow> 8 word list \<Rightarrow> string option" where
  "identifyLoop [] bytes = None"
| "identifyLoop ((name, known) # rest) bytes =
     (if uidMatch known bytes 0 then Some name else identifyLoop rest bytes)"

definition rfidIdentifyGoat :: "Uid \<Rightarrow> string option" where
  "rfidIdentifyGoat u =
     (if uid_size u < 4 then None else identifyLoop knownGoats (uidByte u))"

text \<open>
  What the MFRC522 driver answers in one poll of a reader: the results of
  \<open>PICC_IsNewCardPresent()\<close> and \<open>PICC_ReadCardSerial()\<close>, and the identifier it read.
\<close>

record poll =
  isNewCardPresent :: bool
  readCardSerial :: bool
  reader_uid :: Uid

definition cardPresent :: "poll \<Rightarrow> bool" where
  "cardPresent p = (isNewCardPresent p \<and> readCardSerial p)"

text \<open>
  \<open>rfidCheckReader(reader, readerNumber, lastState)\<close>. The reference parameter
  \<open>lastState\<close> is passed in and returned beside the globals; \<open>t1\<close> and \<open>t2\<close> are the clock
  readings of the \<open>motorOpenDoor\<close> call. The driver calls \<open>PICC_HaltA()\<close> and
  \<open>PCD_StopCrypto1()\<close> touch no variable of the sketch.
\<close>

definition rfidCheckReader ::
  "poll \<Rightarrow> int \<Rightarrow> ulong \<Rightarrow> ulong \<Rightarrow> bool \<times> sys \<Rightarrow> bool \<times> sys" where
  "rfidCheckReader p readerNumber t1 t2 st =
     (let lastState = fst st; s = snd st in
      if cardPresent p \<and> \<not> lastState then
        let goatName = rfidIdentifyGoat (reader_uid p);
            goat = (case goatName of Some n \<Rightarrow> n | None \<Rightarrow> ''UNKNOWN'');
            s1 = Serial_print (LogRfidDetected readerNumber goat (reader_uid p)) s;
            s2 = (if readerNumber = 1 then barnAddGoat goat s1
                  else if readerNumber = 2 then barnRemoveGoat goat s1
                  else s1);
            s3 = (if \<not> manualMode s2 \<and> motorIsIdle s2
                  then motorOpenDoor t1 t2 s2
                  else Serial_print LogRfidIgnored s2)
        in (True, s3)
      else if \<not> cardPresent p then (False, s)
      else (lastState, s))"

text \<open>The two calls of the task loop, each on its own flag.\<close>

definition checkReader1 :: "poll \<Rightarrow> ulong \<Rightarrow> ulong \<Rightarrow> sys \<Rightarrow> sys" where
  "checkReader1 p t1 t2 s =
     (let r = rfidCheckReader p 1 t1 t2 (lastCardStateR1 s, s)
      in (snd r)\<lparr>lastCardStateR1 := fst r\<rparr>)"

definition checkReader2 :: "poll \<Rightarrow> ulong \<Rightarrow> ulong \<Rightarrow> sys \<Rightarrow> sys" where
  "checkReader2 p t1 t2 s =
     (let r = rfidCheckReader p 2 t1 t2 (lastCardStateR2 s, s)
      in (snd r)\<lparr>lastCardStateR2 := fst r\<rparr>)"

text \<open>A run of polls of one reader, each with its driver answer and clock readings.\<close>

fun rfidPolls :: "int \<Rightarrow> (poll \<times> ulong \<times> ulong) list \<Rightarrow> bool \<times> sys \<Rightarrow> bool \<times> sys" where
  "rfidPolls readerNumber [] st = st"
| "rfidPolls readerNumber ((p, t1, t2) # ps) st =
     rfidPolls readerNumber ps (rfidCheckReader p readerNumber t1 t2 st)"

fun is_detected :: "log_line \<Rightarrow> bool" where
  "is_detected (LogRfidDetected n g u) = True"
| "is_detected l = False"

fun is_barn_event :: "log_line \<Rightarrow> bool" where
  "is_barn_event (LogBarnAlreadyInside n) = True"
| "is_barn_event (LogBarnEntered n k) = True"
| "is_barn_event LogBarnFull = True"
| "is_barn_event (LogBarnExited n k) = True"
| "is_barn_event (LogBarnNotFound n) = True"
| "is_barn_event l = False"

fun is_open_request :: "log_line \<Rightarrow> bool" where
  "is_open_request LogMotorOpening = True"
| "is_open_request LogMotorBusy = True"
| "is_open_request l = False"

definition count_lines :: "(log_line \<Rightarrow> bool) \<Rightarrow> sys \<Rightarrow> nat" where
  "count_lines P s = length (filter P (serial s))"

section \<open>Web server handlers\<close>

text \<open>
  What a handler passes to \<open>webServer.send\<close>: status code, content type, body.
\<close>

type_synonym response = "nat \<times> string \<times> string"

text \<open>
  \<open>String(barnPopulation)\<close> of the Arduino core: the decimal digits of the number (the
  counter is never negative).
\<close>

definition digit :: "nat \<Rightarrow> char" where
  "digit d = ''0123456789'' ! d"

function String_of_nat :: "nat \<Rightarrow> string" where
  "String_of_nat n =
     (if n < 10 then [digit n] else String_of_nat (n div 10) @ [digit (n mod 10)])"
  by pat_completeness auto
termination
  by (relation "measure (\<lambda>n. n)") auto

declare String_of_nat.simps [simp del]

text \<open>The loop of \<open>webHandleAPI\<close> over the slots in use, from index \<open>i\<close> on.\<close>

function apiGoats :: "string list \<Rightarrow> nat \<Rightarrow> nat \<Rightarrow> string \<Rightarrow> string" where
  \<open>apiGoats occ pop i json =
     (if i < pop then
        let json1 = json @ (''"'' @ occ ! i @ ''"'');
            json2 = (if i < pop - 1 then json1 @ '','' else json1)
        in apiGoats occ pop (Suc i) json2
      else json)\<close>
  by pat_completeness auto
termination
  by (relation "measure (\<lambda>(occ, pop, i, json). pop - i)") auto

declare apiGoats.simps [simp del]

definition webHandleAPI :: "sys \<Rightarrow> response" where
  \<open>webHandleAPI s =
     (let json = ''{"count":'' @ String_of_nat (barnPopulation s) @
                 '',"doorStatus":"'' @ motorGetStatus (motorState s) @
                 ''","goats":['';
          json1 = apiGoats (barnOccupants s) (barnPopulation s) 0 json;
          json2 = json1 @ '']}''
      in (200, ''application/json'', json2))\<close>

definition webHandleDoorOpen :: "ulong \<Rightarrow> ulong \<Rightarrow> sys \<Rightarrow> response \<times> sys" where
  "webHandleDoorOpen t1 t2 s = ((200, ''text/plain'', ''OK''), motorManualOpen t1 t2 s)"

definition webHandleDoorClose :: "ulong \<Rightarrow> sys \<Rightarrow> response \<times> sys" where
  "webHandleDoorClose t1 s = ((200, ''text/plain'', ''OK''), motorManualClose t1 s)"

text \<open>
  The body the interface promises, in the spec's words: the count, the door status token
  and the quoted names separated by commas.
\<close>

definition quoted :: "string \<Rightarrow> string" where
  \<open>quoted name = ''"'' @ name @ ''"''\<close>

fun comma_separated :: "string list \<Rightarrow> string" where
  "comma_separated [] = []"
| "comma_separated [x] = x"
| "comma_separated (x # y # zs) = x @ '','' @ comma_separated (y # zs)"

definition status_json :: "nat \<Rightarrow> string \<Rightarrow> string list \<Rightarrow> string" where
  \<open>status_json n token names =
     ''{"count":'' @ String_of_nat n @ '',"doorStatus":"'' @ token @ ''","goats":['' @
     comma_separated (map quoted names) @ '']}''\<close>

definition status_tokens :: "string list" where
  "status_tokens = [''closed'', ''opening'', ''open'', ''manual_open'', ''closing'', ''error'']"

section \<open>Calls in sequence\<close>

text \<open>
  The entry points the two tasks call, as events: the motor task's \<open>motorUpdate\<close> and
  reader polls, the web task's handlers, and the door commands themselves. Each call runs
  to its end before the next one starts; what the two tasks do to the shared variables
  when their calls overlap in time is outside this model, and so is the mutex that guards
  the barn data.
\<close>

datatype event =
    MotorUpdate "AccelStepper \<Rightarrow> AccelStepper" ulong ulong
  | MotorOpenDoor ulong ulong
  | MotorCloseDoor ulong
  | WebDoorOpen ulong ulong
  | WebDoorClose ulong
  | CheckReader1 poll ulong ulong
  | CheckReader2 poll ulong ulong

fun fire :: "event \<Rightarrow> sys \<Rightarrow> sys" where
  "fire (MotorUpdate run t1 t2) s = motorUpdate run t1 t2 s"
| "fire (MotorOpenDoor t1 t2) s = motorOpenDoor t1 t2 s"
| "fire (MotorCloseDoor t1) s = motorCloseDoor t1 s"
| "fire (WebDoorOpen t1 t2) s = snd (webHandleDoorOpen t1 t2 s)"
| "fire (WebDoorClose t1) s = snd (webHandleDoorClose t1 s)"
| "fire (CheckReader1 p t1 t2) s = checkReader1 p t1 t2 s"
| "fire (CheckReader2 p t1 t2) s = checkReader2 p t1 t2 s"

fun fire_all :: "event list \<Rightarrow> sys \<Rightarrow> sys" where
  "fire_all [] s = s"
| "fire_all (e # es) s = fire_all es (fire e s)"

fun is_close :: "event \<Rightarrow> bool" where
  "is_close (MotorCloseDoor t1) = True"
| "is_close (WebDoorClose t1) = True"
| "is_close e = False"

text \<open>
  A sequence of events in which no close command is accepted: every close in it arrives
  while the door is idle, where \<open>motorCloseDoor\<close> returns at once.
\<close>

fun no_accepted_close :: "event list \<Rightarrow> sys \<Rightarrow> bool" where
  "no_accepted_close [] s = True"
| "no_accepted_close (e # es) s =
     ((is_close e \<longrightarrow> motorState s = MOTOR_IDLE) \<and> no_accepted_close es (fire e s))"

section \<open>Invariant and concrete inputs\<close>

definition barn_inv :: "sys \<Rightarrow> bool" where
  "barn_inv s = (barn_wf s \<and> distinct (occupancy s))"

text \<open>A \<open>run()\<close> that ends a move with the stepper standing at \<open>pos\<close>.\<close>

definition arrive :: "long \<Rightarrow> AccelStepper \<Rightarrow> AccelStepper" where
  "arrive pos m = m\<lparr>currentPos := pos, targetPos := pos\<rparr>"

text \<open>Bron's card on a reader, and an empty reader.\<close>

definition bron_poll :: poll where
  "bron_poll =
     \<lparr>isNewCardPresent = True, readCardSerial = True,
      reader_uid = \<lparr>uid_size = 4, uidByte = [0x64, 0x3E, 0x32, 0x03, 0, 0, 0, 0, 0, 0]\<rparr>\<rparr>"

definition absent_poll :: poll where
  "absent_poll =
     \<lparr>isNewCardPresent = False, readCardSerial = False,
      reader_uid = \<lparr>uid_size = 0, uidByte = [0, 0, 0, 0, 0, 0, 0, 0, 0, 0]\<rparr>\<rparr>"

text \<open>Bron has just entered through reader 1: the door is opening automatically.\<close>

definition auto_opening :: sys where
  "auto_opening = fire (CheckReader1 bron_poll 7 8) initial"

text \<open>A manual open has just been refused while the door was closing.\<close>

definition closing_flagged :: sys where
  "closing_flagged = snd (webHandleDoorOpen 3 4 (initial\<lparr>motorState := MOTOR_CLOSING\<rparr>))"

definition idle_flagged :: sys where
  "idle_flagged = fire (MotorUpdate id 5 6) closing_flagged"

definition barn_bron_tfrance :: sys where
  "barn_bron_tfrance = barn_run [AddIfAbsent ''Bron'', AddIfAbsent ''TFrance''] initial"

section \<open>Occupancy tracker\<close>

lemma barnScan_NoneD:
  "barnScan occ pop name i = None \<Longrightarrow> i \<le> k \<Longrightarrow> k < pop \<Longrightarrow> occ ! k \<noteq> name"
proof (induction occ pop name i rule: barnScan.induct)
  case (1 occ pop name i)
  show ?case
  proof (cases "k = i")
    case True
    with "1.prems" show ?thesis by (simp add: barnScan.simps [of occ pop name i] split: if_splits)
  next
    case False
    with "1.prems" have "Suc i \<le> k" by simp
    moreover from "1.prems" have "i < pop" by simp
    moreover from "1.prems" \<open>i < pop\<close> have "occ ! i \<noteq> name" "barnScan occ pop name (Suc i) = None"
      by (simp_all add: barnScan.simps [of occ pop name i] split: if_splits)
    ultimately show ?thesis using "1.IH" "1.prems" by simp
  qed
qed

lemma barnScan_SomeD:
  "barnScan occ pop name i = Some k \<Longrightarrow>
     i \<le> k \<and> k < pop \<and> occ ! k = name \<and> (\<forall>j. i \<le> j \<and> j < k \<longrightarrow> occ ! j \<noteq> name)"
proof (induction occ pop name i rule: barnScan.induct)
  case (1 occ pop name i)
  from "1.prems" have lt: "i < pop"
    by (simp add: barnScan.simps [of occ pop name i] split: if_splits)
  show ?case
  proof (cases "occ ! i = name")
    case True
    with "1.prems" lt have "k = i" by (simp add: barnScan.simps [of occ pop name i])
    with True lt show ?thesis by auto
  next
    case False
    with "1.prems" lt have "barnScan occ pop name (Suc i) = Some k"
      by (simp add: barnScan.simps [of occ pop name i])
    with "1.IH" lt False
    have ih: "Suc i \<le> k \<and> k < pop \<and> occ ! k = name \<and> (\<forall>j. Suc i \<le> j \<and> j < k \<longrightarrow> occ ! j \<noteq> name)"
      by simp
    have "\<forall>j. i \<le> j \<and> j < k \<longrightarrow> occ ! j \<noteq> name"
    proof (intro allI impI)
      fix j assume "i \<le> j \<and> j < k"
      then show "occ ! j \<noteq> name" using ih False by (cases "j = i") auto
    qed
    with ih show ?thesis by simp
  qed
qed

lemma barnScan_None_iff:
  "pop \<le> length occ \<Longrightarrow> barnScan occ pop name 0 = None \<longleftrightarrow> name \<notin> set (take pop occ)"
proof
  assume le: "pop \<le> length occ" and n: "barnScan occ pop name 0 = None"
  show "name \<notin> set (take pop occ)"
  proof
    assume "name \<in> set (take pop occ)"
    then obtain k where "k < length (take pop occ)" "take pop occ ! k = name"
      by (auto simp: in_set_conv_nth)
    with le have "k < pop" "occ ! k = name" by simp_all
    with barnScan_NoneD [OF n, of k] show False by simp
  qed
next
  assume le: "pop \<le> length occ" and n: "name \<notin> set (take pop occ)"
  show "barnScan occ pop name 0 = None"
  proof (cases "barnScan occ pop name 0")
    case None then show ?thesis .
  next
    case (Some k)
    from barnScan_SomeD [OF Some] have "k < pop" "occ ! k = name" by simp_all
    with le have "take pop occ ! k = name" "k < length (take pop occ)" by simp_all
    then have "name \<in> set (take pop occ)" by (metis nth_mem)
    with n show ?thesis by simp
  qed
qed

lemma length_barnShift [simp]: "length (barnShift occ pop j) = length occ"
proof (induction occ pop j rule: barnShift.induct)
  case (1 occ pop j)
  show ?case
  proof (cases "j < pop - 1")
    case True
    with "1.IH" show ?thesis by (simp add: barnShift.simps [of occ pop j])
  next
    case False
    then show ?thesis by (simp add: barnShift.simps [of occ pop j])
  qed
qed

lemma nth_barnShift:
  "pop \<le> length occ \<Longrightarrow> k < length occ \<Longrightarrow>
   barnShift occ pop j ! k = (if j \<le> k \<and> k < pop - 1 then occ ! (k + 1) else occ ! k)"
proof (induction occ pop j rule: barnShift.induct)
  case (1 occ pop j)
  show ?case
  proof (cases "j < pop - 1")
    case True
    have "barnShift occ pop j ! k = barnShift (occ[j := occ ! (j + 1)]) pop (Suc j) ! k"
      using True by (simp add: barnShift.simps [of occ pop j])
    also have "\<dots> = (if Suc j \<le> k \<and> k < pop - 1 then (occ[j := occ ! (j + 1)]) ! (k + 1)
                      else (occ[j := occ ! (j + 1)]) ! k)"
      using "1.IH" [OF True] "1.prems" by simp
    also have "\<dots> = (if j \<le> k \<and> k < pop - 1 then occ ! (k + 1) else occ ! k)"
      using True "1.prems" by (auto simp: nth_list_update)
    finally show ?thesis .
  next
    case False
    then show ?thesis by (auto simp: barnShift.simps [of occ pop j])
  qed
qed

lemma take_barnShift:
  assumes "pop \<le> length occ" "i < pop"
  shows "take (pop - 1) (barnShift occ pop i) = take i occ @ drop (Suc i) (take pop occ)"
proof (rule nth_equalityI)
  show "length (take (pop - 1) (barnShift occ pop i)) = length (take i occ @ drop (Suc i) (take pop occ))"
    using assms by simp
next
  fix k assume "k < length (take (pop - 1) (barnShift occ pop i))"
  with assms have k: "k < pop - 1" by simp
  with assms have kl: "k < length occ" by simp
  show "take (pop - 1) (barnShift occ pop i) ! k = (take i occ @ drop (Suc i) (take pop occ)) ! k"
    using assms k kl by (simp add: nth_barnShift nth_append)
qed

lemma remove1_first:
  assumes "i < length xs" "xs ! i = x" "\<forall>j<i. xs ! j \<noteq> x"
  shows "remove1 x xs = take i xs @ drop (Suc i) xs"
  using assms
proof (induction xs arbitrary: i)
  case Nil then show ?case by simp
next
  case (Cons a xs)
  show ?case
  proof (cases i)
    case 0 with Cons.prems show ?thesis by simp
  next
    case (Suc n)
    with Cons.prems have "a \<noteq> x" by auto
    moreover have "remove1 x xs = take n xs @ drop (Suc n) xs"
      using Cons.prems Suc by (intro Cons.IH) auto
    ultimately show ?thesis using Suc by simp
  qed
qed

lemma occupancy_barnAddGoat:
  assumes "barn_wf s"
  shows "occupancy (barnAddGoat name s) =
           (if name \<in> set (occupancy s) \<or> \<not> barnPopulation s < MAX_GOATS_IN_BARN
            then occupancy s else occupancy s @ [name])"
proof -
  from assms have le: "barnPopulation s \<le> length (barnOccupants s)"
    by (simp add: barn_wf_def)
  show ?thesis
  proof (cases "barnScan (barnOccupants s) (barnPopulation s) name 0")
    case (Some i)
    with barnScan_None_iff [OF le, of name] have "name \<in> set (occupancy s)"
      by (simp add: occupancy_def)
    with Some show ?thesis
      by (simp add: barnAddGoat_def occupancy_def Serial_print_def)
  next
    case None
    with barnScan_None_iff [OF le, of name] have notin: "name \<notin> set (occupancy s)"
      by (simp add: occupancy_def)
    show ?thesis
    proof (cases "barnPopulation s < MAX_GOATS_IN_BARN")
      case True
      with assms have "barnPopulation s < length (barnOccupants s)"
        by (simp add: barn_wf_def)
      then have "take (Suc (barnPopulation s)) ((barnOccupants s)[barnPopulation s := name]) =
                 take (barnPopulation s) (barnOccupants s) @ [name]"
        by (simp add: take_Suc_conv_app_nth)
      with None True notin show ?thesis
        by (simp add: barnAddGoat_def occupancy_def Serial_print_def Let_def)
    next
      case False
      with None show ?thesis
        by (simp add: barnAddGoat_def occupancy_def Serial_print_def)
    qed
  qed
qed

lemma occupancy_barnRemoveGoat:
  assumes "barn_wf s"
  shows "occupancy (barnRemoveGoat name s) = remove1 name (occupancy s)"
proof -
  from assms have le: "barnPopulation s \<le> length (barnOccupants s)"
    by (simp add: barn_wf_def)
  show ?thesis
  proof (cases "barnScan (barnOccupants s) (barnPopulation s) name 0")
    case None
    with barnScan_None_iff [OF le, of name] have "name \<notin> set (occupancy s)"
      by (simp add: occupancy_def)
    then have "remove1 name (occupancy s) = occupancy s"
      by (simp add: remove1_idem)
    with None show ?thesis
      by (simp add: barnRemoveGoat_def occupancy_def Serial_print_def)
  next
    case (Some i)
    from barnScan_SomeD [OF Some]
    have i: "i < barnPopulation s" "barnOccupants s ! i = name"
      "\<forall>j<i. barnOccupants s ! j \<noteq> name" by simp_all
    let ?xs = "take (barnPopulation s) (barnOccupants s)"
    from i le have "i < length ?xs" "?xs ! i = name" "\<forall>j<i. ?xs ! j \<noteq> name"
      by simp_all
    then have "remove1 name ?xs = take i ?xs @ drop (Suc i) ?xs"
      by (rule remove1_first)
    also have "take i ?xs = take i (barnOccupants s)"
      using i by (simp add: min_def)
    finally have "remove1 name ?xs =
        take (barnPopulation s - 1) (barnShift (barnOccupants s) (barnPopulation s) i)"
      using take_barnShift [OF le i(1)] by simp
    with Some show ?thesis
      by (simp add: barnRemoveGoat_def occupancy_def Serial_print_def Let_def)
  qed
qed

lemma barn_wf_barnAddGoat: "barn_wf s \<Longrightarrow> barn_wf (barnAddGoat name s)"
  by (auto simp: barn_wf_def barnAddGoat_def Serial_print_def Let_def split: option.splits)

lemma barn_wf_barnRemoveGoat: "barn_wf s \<Longrightarrow> barn_wf (barnRemoveGoat name s)"
  by (auto simp: barn_wf_def barnRemoveGoat_def Serial_print_def Let_def split: option.splits)

lemma length_occupancy: "barn_wf s \<Longrightarrow> length (occupancy s) = barnPopulation s"
  by (simp add: barn_wf_def occupancy_def)

lemma barn_inv_apply: "barn_inv s \<Longrightarrow> barn_inv (barn_apply x s)"
  by (cases x)
     (auto simp: barn_inv_def barn_wf_barnAddGoat barn_wf_barnRemoveGoat
        occupancy_barnAddGoat occupancy_barnRemoveGoat)

lemma barn_inv_run: "barn_inv s \<Longrightarrow> barn_inv (barn_run ops s)"
  by (induction ops arbitrary: s) (simp_all add: barn_inv_apply)

lemma barnAddGoat_present:
  assumes "barn_wf s" "name \<in> set (occupancy s)"
  shows "barnAddGoat name s = Serial_print (LogBarnAlreadyInside name) s"
proof -
  from assms have le: "barnPopulation s \<le> length (barnOccupants s)"
    by (simp add: barn_wf_def)
  with barnScan_None_iff [OF le, of name] assms(2)
  obtain i where "barnScan (barnOccupants s) (barnPopulation s) name 0 = Some i"
    by (auto simp: occupancy_def)
  then show ?thesis by (simp add: barnAddGoat_def)
qed

lemma barnAddGoat_full:
  assumes "barn_wf s" "name \<notin> set (occupancy s)" "barnPopulation s = MAX_GOATS_IN_BARN"
  shows "barnAddGoat name s = Serial_print LogBarnFull s"
proof -
  from assms have le: "barnPopulation s \<le> length (barnOccupants s)"
    by (simp add: barn_wf_def)
  with barnScan_None_iff [OF le, of name] assms(2)
  have "barnScan (barnOccupants s) (barnPopulation s) name 0 = None"
    by (simp add: occupancy_def)
  with assms(3) show ?thesis by (simp add: barnAddGoat_def)
qed

lemma remove1_snoc_same:
  assumes "distinct xs" "x \<in> set xs"
  shows "remove1 x xs @ [x] = xs \<longleftrightarrow> last xs = x"
proof
  assume "remove1 x xs @ [x] = xs"
  then have "last xs = last (remove1 x xs @ [x])" by simp
  then show "last xs = x" by simp
next
  assume l: "last xs = x"
  from assms have "xs \<noteq> []" by auto
  with l have xs: "xs = butlast xs @ [x]" by (metis append_butlast_last_id)
  with assms(1) have "x \<notin> set (butlast xs)"
    by (metis distinct_append disjoint_iff list.set_intros(1))
  then have "remove1 x (butlast xs @ [x]) = butlast xs"
    by (simp add: remove1_append remove1_idem)
  with xs show "remove1 x xs @ [x] = xs" by simp
qed

text \<open>
  Claim C6. Starting from an empty occupancy list, after every sequence of
  \<open>barnAddGoat\<close> and \<open>barnRemoveGoat\<close> calls the list holds no name twice and at most
  10 names. Adding a name that is already listed, and adding a new name to a list of 10,
  change nothing but the serial log: array and counter stay as they are.
\<close>

theorem barn_no_duplicates_within_capacity:
  assumes "barn_wf s0" and "barnPopulation s0 = 0"
  shows "let s = barn_run ops s0 in
           distinct (occupancy s) \<and>
           length (occupancy s) = barnPopulation s \<and>
           length (occupancy s) \<le> 10 \<and>
           (name \<in> set (occupancy s) \<longrightarrow>
              barnAddGoat name s = s\<lparr>serial := serial s @ [LogBarnAlreadyInside name]\<rparr>) \<and>
           (name \<notin> set (occupancy s) \<and> length (occupancy s) = 10 \<longrightarrow>
              barnAddGoat name s = s\<lparr>serial := serial s @ [LogBarnFull]\<rparr>)"
proof -
  from assms have "barn_inv s0"
    by (simp add: barn_inv_def occupancy_def)
  then have inv: "barn_inv (barn_run ops s0)"
    by (rule barn_inv_run)
  then have wf: "barn_wf (barn_run ops s0)"
    by (simp add: barn_inv_def)
  from inv have "distinct (occupancy (barn_run ops s0))"
    by (simp add: barn_inv_def)
  moreover from wf have "length (occupancy (barn_run ops s0)) = barnPopulation (barn_run ops s0)"
    by (rule length_occupancy)
  moreover from wf have "barnPopulation (barn_run ops s0) \<le> 10"
    by (simp add: barn_wf_def MAX_GOATS_IN_BARN_def)
  ultimately show ?thesis
    using barnAddGoat_present [OF wf, of name] barnAddGoat_full [OF wf, of name]
    by (simp add: Let_def Serial_print_def MAX_GOATS_IN_BARN_def)
qed

text \<open>
  Claim C6 at concrete inputs: a repeated add of Bron and BigO, and an eleventh name
  offered to a full barn.
\<close>

theorem barn_no_duplicates_within_capacity_witness:
  "barn_wf initial \<and> barnPopulation initial = 0 \<and>
   occupancy (barn_run [AddIfAbsent ''Bron'', AddIfAbsent ''Bron'', AddIfAbsent ''TFrance'',
      RemoveIfPresent ''Bron'', AddIfAbsent ''BigO''] initial) = [''TFrance'', ''BigO''] \<and>
   occupancy (barnAddGoat ''BigO'' (barn_run [AddIfAbsent ''Bron'', AddIfAbsent ''Bron'',
      AddIfAbsent ''TFrance'', RemoveIfPresent ''Bron'', AddIfAbsent ''BigO''] initial)) =
     [''TFrance'', ''BigO''] \<and>
   occupancy (barn_run (map AddIfAbsent [''a'', ''b'', ''c'', ''d'', ''e'', ''f'', ''g'',
      ''h'', ''i'', ''j'', ''k'']) initial) =
     [''a'', ''b'', ''c'', ''d'', ''e'', ''f'', ''g'', ''h'', ''i'', ''j''] \<and>
   occupancy (barnAddGoat ''k'' (barn_run (map AddIfAbsent [''a'', ''b'', ''c'', ''d'', ''e'',
      ''f'', ''g'', ''h'', ''i'', ''j'', ''k'']) initial)) =
     [''a'', ''b'', ''c'', ''d'', ''e'', ''f'', ''g'', ''h'', ''i'', ''j'']"
proof -
  let ?a = "barn_run [AddIfAbsent ''Bron'', AddIfAbsent ''Bron'', AddIfAbsent ''TFrance'',
      RemoveIfPresent ''Bron'', AddIfAbsent ''BigO''] initial"
  let ?b = "barn_run (map AddIfAbsent [''a'', ''b'', ''c'', ''d'', ''e'', ''f'', ''g'',
      ''h'', ''i'', ''j'', ''k'']) initial"
  have wf: "barn_wf initial" and emp: "barnPopulation initial = 0"
    by (simp_all add: barn_wf_def initial_def)
  have o1: "occupancy ?a = [''TFrance'', ''BigO'']"
    by code_simp
  have o2: "occupancy ?b = [''a'', ''b'', ''c'', ''d'', ''e'', ''f'', ''g'', ''h'', ''i'', ''j'']"
    by code_simp
  have "barnAddGoat ''BigO'' ?a = ?a\<lparr>serial := serial ?a @ [LogBarnAlreadyInside ''BigO'']\<rparr>"
    using barn_no_duplicates_within_capacity [OF wf emp, of
        "[AddIfAbsent ''Bron'', AddIfAbsent ''Bron'', AddIfAbsent ''TFrance'',
          RemoveIfPresent ''Bron'', AddIfAbsent ''BigO'']" "''BigO''"] o1
    by (simp add: Let_def del: barn_run.simps)
  then have a: "occupancy (barnAddGoat ''BigO'' ?a) = occupancy ?a"
    by (simp add: occupancy_def del: barn_run.simps)
  have "barnAddGoat ''k'' ?b = ?b\<lparr>serial := serial ?b @ [LogBarnFull]\<rparr>"
    using barn_no_duplicates_within_capacity [OF wf emp, of
        "map AddIfAbsent [''a'', ''b'', ''c'', ''d'', ''e'', ''f'', ''g'', ''h'', ''i'', ''j'',
          ''k'']" "''k''"] o2
    by (simp add: Let_def del: barn_run.simps)
  then have b: "occupancy (barnAddGoat ''k'' ?b) = occupancy ?b"
    by (simp add: occupancy_def del: barn_run.simps)
  from wf emp o1 o2 a b show ?thesis
    by (simp del: barn_run.simps)
qed

text \<open>
  Claim C7. For every well-formed occupancy list without duplicates that contains
  \<open>name\<close> (at or below the capacity), \<open>barnRemoveGoat name\<close> followed by
  \<open>barnAddGoat name\<close> gives a list of the same length whose last element is \<open>name\<close>
  and in which all other names keep their relative order; the list is the original one
  only when \<open>name\<close> was its last element already.
\<close>

theorem remove_then_add_moves_to_end:
  assumes "barn_wf s" and "distinct (occupancy s)" and "name \<in> set (occupancy s)"
  shows "let s' = barnAddGoat name (barnRemoveGoat name s) in
           length (occupancy s') = length (occupancy s) \<and>
           last (occupancy s') = name \<and>
           occupancy s' = remove1 name (occupancy s) @ [name] \<and>
           filter (\<lambda>x. x \<noteq> name) (occupancy s') = filter (\<lambda>x. x \<noteq> name) (occupancy s) \<and>
           (occupancy s' = occupancy s \<longleftrightarrow> last (occupancy s) = name)"
proof -
  let ?r = "barnRemoveGoat name s"
  have wfr: "barn_wf ?r" using assms(1) by (rule barn_wf_barnRemoveGoat)
  have occr: "occupancy ?r = remove1 name (occupancy s)"
    using assms(1) by (rule occupancy_barnRemoveGoat)
  from assms(2,3) have notin: "name \<notin> set (occupancy ?r)"
    by (simp add: occr)
  from assms(3) have "length (remove1 name (occupancy s)) = length (occupancy s) - 1"
    by (simp add: length_remove1)
  moreover from assms(3) have pos: "0 < length (occupancy s)"
    by (cases "occupancy s") auto
  ultimately have lenr: "Suc (length (occupancy ?r)) = length (occupancy s)"
    by (simp add: occr)
  from assms(1) have "length (occupancy s) \<le> MAX_GOATS_IN_BARN"
    by (simp add: length_occupancy barn_wf_def)
  with lenr have "barnPopulation ?r < MAX_GOATS_IN_BARN"
    using length_occupancy [OF wfr] by simp
  with notin have occ': "occupancy (barnAddGoat name ?r) = remove1 name (occupancy s) @ [name]"
    by (simp add: occupancy_barnAddGoat [OF wfr] occr)
  have "filter (\<lambda>x. x \<noteq> name) (remove1 name (occupancy s)) =
        remove1 name (filter (\<lambda>x. x \<noteq> name) (occupancy s))"
    by (rule filter_remove1)
  also have "\<dots> = filter (\<lambda>x. x \<noteq> name) (occupancy s)"
    by (simp add: remove1_idem)
  finally have flt: "filter (\<lambda>x. x \<noteq> name) (remove1 name (occupancy s) @ [name]) =
      filter (\<lambda>x. x \<noteq> name) (occupancy s)"
    by simp
  from lenr occr have len: "length (remove1 name (occupancy s) @ [name]) = length (occupancy s)"
    by simp
  show ?thesis
    using occ' flt len remove1_snoc_same [OF assms(2,3)]
    by (simp add: Let_def)
qed

text \<open>Claim C7 on the list Bron, TFrance: Bron moves behind TFrance.\<close>

theorem remove_then_add_moves_to_end_witness:
  "barn_wf barn_bron_tfrance \<and>
   occupancy barn_bron_tfrance = [''Bron'', ''TFrance''] \<and>
   occupancy (barnAddGoat ''Bron'' (barnRemoveGoat ''Bron'' barn_bron_tfrance)) =
     [''TFrance'', ''Bron''] \<and>
   last (occupancy (barnAddGoat ''Bron'' (barnRemoveGoat ''Bron'' barn_bron_tfrance))) = ''Bron''"
proof -
  have wf: "barn_wf barn_bron_tfrance"
    by code_simp
  have occ: "occupancy barn_bron_tfrance = [''Bron'', ''TFrance'']"
    by code_simp
  then have d: "distinct (occupancy barn_bron_tfrance)"
    and m: "''Bron'' \<in> set (occupancy barn_bron_tfrance)"
    by simp_all
  show ?thesis
    using remove_then_add_moves_to_end [OF wf d m] wf occ
    by (simp add: Let_def)
qed

section \<open>Door motor controller\<close>

text \<open>
  Claim C1, amended. \<open>motorOpenDoor\<close> is accepted exactly when the state is Idle or
  ManualOpen: it then sets the target position to \<open>POS_OPEN\<close>, moves to Opening, records
  the state and move start times, increments the move counter and changes nothing else
  but the log. In every other state (Opening, OpenHolding, Closing, Error) it is refused:
  the busy line is logged and no variable of the controller changes.
\<close>

theorem motorOpenDoor_accepts_idle_or_manual_open:
  "(motorState s = MOTOR_IDLE \<or> motorState s = MOTOR_MANUAL_OPEN \<longrightarrow>
      motorOpenDoor t1 t2 s =
        s\<lparr>motor := (motor s)\<lparr>targetPos := POS_OPEN\<rparr>,
          motorState := MOTOR_OPENING,
          motorStateStartTime := t1,
          motorMoveStartTime := t2,
          totalMoves := totalMoves s + 1,
          serial := serial s @ [LogMotorOpening]\<rparr>) \<and>
   (motorState s \<noteq> MOTOR_IDLE \<and> motorState s \<noteq> MOTOR_MANUAL_OPEN \<longrightarrow>
      motorOpenDoor t1 t2 s = s\<lparr>serial := serial s @ [LogMotorBusy]\<rparr>)"
  by (simp add: motorOpenDoor_def Serial_print_def moveTo_def Let_def)

text \<open>Claim C1, amended, at the initial (idle) state and at a closing door.\<close>

theorem motorOpenDoor_accepts_idle_or_manual_open_witness:
  "motorState initial = MOTOR_IDLE \<and>
   motorState (motorOpenDoor 7 8 initial) = MOTOR_OPENING \<and>
   targetPos (motor (motorOpenDoor 7 8 initial)) = 1400 \<and>
   motorMoveStartTime (motorOpenDoor 7 8 initial) = 8 \<and>
   totalMoves (motorOpenDoor 7 8 initial) = 1 \<and>
   motorState (initial\<lparr>motorState := MOTOR_CLOSING\<rparr>) \<noteq> MOTOR_IDLE \<and>
   motorState (initial\<lparr>motorState := MOTOR_CLOSING\<rparr>) \<noteq> MOTOR_MANUAL_OPEN \<and>
   motorOpenDoor 7 8 (initial\<lparr>motorState := MOTOR_CLOSING\<rparr>) =
     initial\<lparr>motorState := MOTOR_CLOSING, serial := [LogMotorBusy]\<rparr>"
  using motorOpenDoor_accepts_idle_or_manual_open [of initial 7 8]
    motorOpenDoor_accepts_idle_or_manual_open [of "initial\<lparr>motorState := MOTOR_CLOSING\<rparr>" 7 8]
  by (simp add: initial_def POS_OPEN_def)

text \<open>
  Claim C1 as stated fails in the state Opening: a second \<open>motorOpenDoor\<close> while the
  door is opening is refused with the busy line; the move counter is not incremented and
  the recorded move start is not replaced.
\<close>

theorem motorOpenDoor_rejected_while_opening:
  "motorState (motorOpenDoor 7 8 initial) = MOTOR_OPENING \<and>
   totalMoves (motorOpenDoor 20 21 (motorOpenDoor 7 8 initial)) =
     totalMoves (motorOpenDoor 7 8 initial) \<and>
   totalMoves (motorOpenDoor 20 21 (motorOpenDoor 7 8 initial)) \<noteq>
     totalMoves (motorOpenDoor 7 8 initial) + 1 \<and>
   motorMoveStartTime (motorOpenDoor 20 21 (motorOpenDoor 7 8 initial)) = 8 \<and>
   motorMoveStartTime (motorOpenDoor 20 21 (motorOpenDoor 7 8 initial)) \<noteq> 21 \<and>
   serial (motorOpenDoor 20 21 (motorOpenDoor 7 8 initial)) = [LogMotorOpening, LogMotorBusy]"
  by (simp add: motorOpenDoor_def Serial_print_def moveTo_def Let_def initial_def)

text \<open>
  Claim C2. When \<open>motorUpdate\<close> runs in state Opening and the stepper reports zero
  distance to go, the state becomes ManualOpen if the manual flag is set, and otherwise
  OpenHolding with the hold start recorded. A final position different from \<open>POS_OPEN\<close>
  increments the failure counter and leaves the transition as it is.
\<close>

theorem motorUpdate_opening_arrival:
  assumes "motorState s = MOTOR_OPENING" and "distanceToGo (run (motor s)) = 0"
  shows "motorState (motorUpdate run t1 t2 s) =
           (if manualMode s then MOTOR_MANUAL_OPEN else MOTOR_OPEN_HOLDING) \<and>
         motorStateStartTime (motorUpdate run t1 t2 s) =
           (if manualMode s then motorStateStartTime s else t2) \<and>
         failedMoves (motorUpdate run t1 t2 s) =
           (if currentPosition (run (motor s)) \<noteq> POS_OPEN
            then failedMoves s + 1 else failedMoves s) \<and>
         manualMode (motorUpdate run t1 t2 s) = manualMode s \<and>
         motor (motorUpdate run t1 t2 s) = run (motor s)"
  using assms by (simp add: motorUpdate_def Serial_print_def Let_def)

text \<open>
  Claim C2 for an automatic and a manual opening that arrive, on target at 1400 and one
  step short at 1399.
\<close>

theorem motorUpdate_opening_arrival_witness:
  "motorState (motorOpenDoor 7 8 initial) = MOTOR_OPENING \<and>
   distanceToGo (arrive 1400 (motor (motorOpenDoor 7 8 initial))) = 0 \<and>
   motorState (motorUpdate (arrive 1400) 50 51 (motorOpenDoor 7 8 initial)) = MOTOR_OPEN_HOLDING \<and>
   motorStateStartTime (motorUpdate (arrive 1400) 50 51 (motorOpenDoor 7 8 initial)) = 51 \<and>
   failedMoves (motorUpdate (arrive 1400) 50 51 (motorOpenDoor 7 8 initial)) = 0 \<and>
   distanceToGo (arrive 1399 (motor (motorManualOpen 7 8 initial))) = 0 \<and>
   motorState (motorUpdate (arrive 1399) 50 51 (motorManualOpen 7 8 initial)) = MOTOR_MANUAL_OPEN \<and>
   failedMoves (motorUpdate (arrive 1399) 50 51 (motorManualOpen 7 8 initial)) = 1 \<and>
   motorState (motorUpdate (arrive 1399) 50 51 (motorOpenDoor 7 8 initial)) = MOTOR_OPEN_HOLDING \<and>
   failedMoves (motorUpdate (arrive 1399) 50 51 (motorOpenDoor 7 8 initial)) = 1"
proof -
  have a: "motorState (motorOpenDoor 7 8 initial) = MOTOR_OPENING"
    and b: "motorState (motorManualOpen 7 8 initial) = MOTOR_OPENING"
    and m: "manualMode (motorManualOpen 7 8 initial)" "\<not> manualMode (motorOpenDoor 7 8 initial)"
    and f: "failedMoves (motorManualOpen 7 8 initial) = 0" "failedMoves (motorOpenDoor 7 8 initial) = 0"
    by (simp_all add: motorManualOpen_def motorOpenDoor_def Serial_print_def Let_def initial_def)
  have d: "distanceToGo (arrive 1400 (motor (motorOpenDoor 7 8 initial))) = 0"
    "distanceToGo (arrive 1399 (motor (motorManualOpen 7 8 initial))) = 0"
    "distanceToGo (arrive 1399 (motor (motorOpenDoor 7 8 initial))) = 0"
    by (simp_all add: distanceToGo_def arrive_def)
  show ?thesis
    using motorUpdate_opening_arrival [where run = "arrive 1400" and ?t1.0 = 50 and ?t2.0 = 51, OF a d(1)]
      motorUpdate_opening_arrival [where run = "arrive 1399" and ?t1.0 = 50 and ?t2.0 = 51, OF b d(2)]
      motorUpdate_opening_arrival [where run = "arrive 1399" and ?t1.0 = 50 and ?t2.0 = 51, OF a d(3)]
      a d m f
    by (simp add: currentPosition_def arrive_def POS_OPEN_def)
qed

text \<open>
  Claim C3. When \<open>motorUpdate\<close> runs in state OpenHolding and the 32-bit millisecond
  clock has advanced by at least 3000 since the recorded hold start, the target becomes
  \<open>POS_CLOSED\<close> and the state Closing; when it has advanced by less, the state stays
  OpenHolding and only the stepper has run.
\<close>

theorem motorUpdate_hold_expiry:
  assumes "motorState s = MOTOR_OPEN_HOLDING"
  shows "(3000 \<le> t1 - motorStateStartTime s \<longrightarrow>
            motorState (motorUpdate run t1 t2 s) = MOTOR_CLOSING \<and>
            targetPos (motor (motorUpdate run t1 t2 s)) = POS_CLOSED \<and>
            motorMoveStartTime (motorUpdate run t1 t2 s) = t2) \<and>
         (t1 - motorStateStartTime s < 3000 \<longrightarrow>
            motorState (motorUpdate run t1 t2 s) = MOTOR_OPEN_HOLDING \<and>
            motorUpdate run t1 t2 s = s\<lparr>motor := run (motor s)\<rparr>)"
  using assms
  by (simp add: motorUpdate_def Serial_print_def Let_def moveTo_def DOOR_HOLD_TIME_MS_def
      not_le [symmetric])

text \<open>
  Claim C3 at 3000 ms and at 2999 ms after the hold start, and across the wrap-around of
  the clock.
\<close>

theorem motorUpdate_hold_expiry_witness:
  "motorState (initial\<lparr>motorState := MOTOR_OPEN_HOLDING, motorStateStartTime := 1000\<rparr>) =
     MOTOR_OPEN_HOLDING \<and>
   (3000 :: ulong) \<le> 4000 - 1000 \<and>
   motorState (motorUpdate id 4000 4001
     (initial\<lparr>motorState := MOTOR_OPEN_HOLDING, motorStateStartTime := 1000\<rparr>)) = MOTOR_CLOSING \<and>
   targetPos (motor (motorUpdate id 4000 4001
     (initial\<lparr>motorState := MOTOR_OPEN_HOLDING, motorStateStartTime := 1000\<rparr>))) = 0 \<and>
   (3999 :: ulong) - 1000 < 3000 \<and>
   motorState (motorUpdate id 3999 3999
     (initial\<lparr>motorState := MOTOR_OPEN_HOLDING, motorStateStartTime := 1000\<rparr>)) =
     MOTOR_OPEN_HOLDING \<and>
   (3000 :: ulong) \<le> 2000 - 4294966296 \<and>
   motorState (motorUpdate id 2000 2001
     (initial\<lparr>motorState := MOTOR_OPEN_HOLDING, motorStateStartTime := 4294966296\<rparr>)) =
     MOTOR_CLOSING"
  using motorUpdate_hold_expiry [of
      "initial\<lparr>motorState := MOTOR_OPEN_HOLDING, motorStateStartTime := 4294966296\<rparr>"
      2000 id 2001] motorUpdate_hold_expiry [of
      "initial\<lparr>motorState := MOTOR_OPEN_HOLDING, motorStateStartTime := 1000\<rparr>" 4000 id 4001]
    motorUpdate_hold_expiry [of
      "initial\<lparr>motorState := MOTOR_OPEN_HOLDING, motorStateStartTime := 1000\<rparr>" 3999 id 3999]
  by (simp add: POS_CLOSED_def)

subsection \<open>The Error state\<close>

lemma barnAddGoat_motor_fields [simp]:
  "motorState (barnAddGoat name s) = motorState s"
  "manualMode (barnAddGoat name s) = manualMode s"
  "motor (barnAddGoat name s) = motor s"
  "totalMoves (barnAddGoat name s) = totalMoves s"
  by (simp_all add: barnAddGoat_def Serial_print_def Let_def split: option.splits)

lemma barnRemoveGoat_motor_fields [simp]:
  "motorState (barnRemoveGoat name s) = motorState s"
  "manualMode (barnRemoveGoat name s) = manualMode s"
  "motor (barnRemoveGoat name s) = motor s"
  "totalMoves (barnRemoveGoat name s) = totalMoves s"
  by (simp_all add: barnRemoveGoat_def Serial_print_def Let_def split: option.splits)

lemma Serial_print_fields [simp]:
  "motorState (Serial_print l s) = motorState s"
  "manualMode (Serial_print l s) = manualMode s"
  "motor (Serial_print l s) = motor s"
  "totalMoves (Serial_print l s) = totalMoves s"
  "barnOccupants (Serial_print l s) = barnOccupants s"
  "barnPopulation (Serial_print l s) = barnPopulation s"
  "serial (Serial_print l s) = serial s @ [l]"
  by (simp_all add: Serial_print_def)

lemma motorOpenDoor_error [simp]:
  "motorState s = MOTOR_ERROR \<Longrightarrow> motorState (motorOpenDoor t1 t2 s) = MOTOR_ERROR"
  by (simp add: motorOpenDoor_def)

lemma motorUpdate_error [simp]:
  "motorState s = MOTOR_ERROR \<Longrightarrow> motorState (motorUpdate run t1 t2 s) = MOTOR_ERROR"
  by (simp add: motorUpdate_def)

lemma rfidCheckReader_error:
  "motorState s = MOTOR_ERROR \<Longrightarrow> motorState (snd (rfidCheckReader p n t1 t2 (l, s))) = MOTOR_ERROR"
  by (simp add: rfidCheckReader_def Let_def motorIsIdle_def)

lemma fire_error:
  "motorState s = MOTOR_ERROR \<Longrightarrow> \<not> is_close e \<Longrightarrow> motorState (fire e s) = MOTOR_ERROR"
  by (cases e)
     (simp_all add: webHandleDoorOpen_def motorManualOpen_def checkReader1_def checkReader2_def
        rfidCheckReader_error Let_def)

lemma fire_all_error:
  "motorState s = MOTOR_ERROR \<Longrightarrow> \<forall>e\<in>set es. \<not> is_close e \<Longrightarrow>
   motorState (fire_all es s) = MOTOR_ERROR"
  by (induction es arbitrary: s) (simp_all add: fire_error)

text \<open>
  Claim C4, amended. Starting in state Error, every sequence of updates, open commands
  (automatic or manual) and reader polls leaves the state Error; a close command is
  accepted in state Error and moves the controller to Closing with the closed position as
  target.
\<close>

theorem error_left_only_by_close:
  "(motorState s = MOTOR_ERROR \<and> (\<forall>e\<in>set es. \<not> is_close e) \<longrightarrow>
      motorState (fire_all es s) = MOTOR_ERROR) \<and>
   (motorState s = MOTOR_ERROR \<longrightarrow>
      motorState (motorCloseDoor t1 s) = MOTOR_CLOSING \<and>
      targetPos (motor (motorCloseDoor t1 s)) = POS_CLOSED)"
  by (simp add: fire_all_error motorCloseDoor_def moveTo_def Let_def)

text \<open>Claim C4, amended, on a short sequence of updates and open commands.\<close>

theorem error_left_only_by_close_witness:
  "motorState (initial\<lparr>motorState := MOTOR_ERROR\<rparr>) = MOTOR_ERROR \<and>
   motorState (fire_all [MotorUpdate id 1 2, MotorOpenDoor 3 4, WebDoorOpen 5 6,
      MotorUpdate id 7 8] (initial\<lparr>motorState := MOTOR_ERROR\<rparr>)) = MOTOR_ERROR \<and>
   motorState (motorCloseDoor 9 (initial\<lparr>motorState := MOTOR_ERROR\<rparr>)) = MOTOR_CLOSING"
  using error_left_only_by_close [of "initial\<lparr>motorState := MOTOR_ERROR\<rparr>"
      "[MotorUpdate id 1 2, MotorOpenDoor 3 4, WebDoorOpen 5 6, MotorUpdate id 7 8]" 9]
  by simp

text \<open>
  Claim C4 as stated fails: \<open>motorCloseDoor\<close> refuses only the Idle state, so a close
  command in state Error starts a closing move, and the next update that finds the
  stepper on target returns the controller to Idle.
\<close>

theorem error_left_by_requestClose:
  "motorState (initial\<lparr>motorState := MOTOR_ERROR\<rparr>) = MOTOR_ERROR \<and>
   motorState (fire_all [MotorCloseDoor 9] (initial\<lparr>motorState := MOTOR_ERROR\<rparr>)) =
     MOTOR_CLOSING \<and>
   motorState (fire_all [MotorCloseDoor 9] (initial\<lparr>motorState := MOTOR_ERROR\<rparr>)) \<noteq>
     MOTOR_ERROR \<and>
   motorState (fire_all [MotorCloseDoor 9, MotorUpdate id 10 11]
     (initial\<lparr>motorState := MOTOR_ERROR\<rparr>)) = MOTOR_IDLE"
  by (simp add: motorCloseDoor_def motorUpdate_def moveTo_def distanceToGo_def
      currentPosition_def Serial_print_def Let_def initial_def POS_CLOSED_def)

section \<open>Status service\<close>

text \<open>
  Claim C8. \<open>webHandleDoorOpen\<close> answers 200, text/plain, OK in every state. Called
  while the door is closing (and in every other state that refuses the open command) it
  leaves the door state and the stepper as they are and logs the refusal.
\<close>

theorem webHandleDoorOpen_always_ok:
  "fst (webHandleDoorOpen t1 t2 s) = (200, ''text/plain'', ''OK'') \<and>
   (motorState s = MOTOR_CLOSING \<longrightarrow>
      motorState (snd (webHandleDoorOpen t1 t2 s)) = MOTOR_CLOSING) \<and>
   (motorState s \<noteq> MOTOR_IDLE \<and> motorState s \<noteq> MOTOR_MANUAL_OPEN \<longrightarrow>
      motorState (snd (webHandleDoorOpen t1 t2 s)) = motorState s \<and>
      motor (snd (webHandleDoorOpen t1 t2 s)) = motor s \<and>
      serial (snd (webHandleDoorOpen t1 t2 s)) =
        serial s @ [LogMotorManualOpenCmd, LogMotorBusy])"
  by (simp add: webHandleDoorOpen_def motorManualOpen_def motorOpenDoor_def Let_def)

text \<open>Claim C8 at a closing door.\<close>

theorem webHandleDoorOpen_always_ok_witness:
  "motorState (initial\<lparr>motorState := MOTOR_CLOSING\<rparr>) = MOTOR_CLOSING \<and>
   fst (webHandleDoorOpen 3 4 (initial\<lparr>motorState := MOTOR_CLOSING\<rparr>)) =
     (200, ''text/plain'', ''OK'') \<and>
   motorState (snd (webHandleDoorOpen 3 4 (initial\<lparr>motorState := MOTOR_CLOSING\<rparr>))) =
     MOTOR_CLOSING \<and>
   serial (snd (webHandleDoorOpen 3 4 (initial\<lparr>motorState := MOTOR_CLOSING\<rparr>))) =
     [LogMotorManualOpenCmd, LogMotorBusy]"
  using webHandleDoorOpen_always_ok [of 3 4 "initial\<lparr>motorState := MOTOR_CLOSING\<rparr>"]
  by (simp add: initial_def)

lemma comma_separated_Cons:
  "comma_separated (x # ys) = (if ys = [] then x else x @ '','' @ comma_separated ys)"
  by (cases ys) simp_all

lemma apiGoats_eq:
  "pop \<le> length occ \<Longrightarrow> i \<le> pop \<Longrightarrow>
   apiGoats occ pop i json = json @ comma_separated (map quoted (drop i (take pop occ)))"
proof (induction occ pop i json rule: apiGoats.induct)
  case (1 occ pop i json)
  show ?case
  proof (cases "i < pop")
    case False
    then have "apiGoats occ pop i json = json"
      by (subst apiGoats.simps) simp
    with False "1.prems" show ?thesis by simp
  next
    case True
    from True "1.prems" have il: "i < length (take pop occ)" by simp
    have dr: "drop i (take pop occ) = occ ! i # drop (Suc i) (take pop occ)"
      using Cons_nth_drop_Suc [OF il] True by simp
    have q: \<open>quoted (occ ! i) = ''"'' @ occ ! i @ ''"''\<close>
      by (simp add: quoted_def)
    show ?thesis
    proof (cases "i < pop - 1")
      case more: True
      have "apiGoats occ pop i json = apiGoats occ pop (Suc i) ((json @ quoted (occ ! i)) @ '','')"
        using True more by (subst apiGoats.simps) (simp add: q)
      also have "\<dots> = ((json @ quoted (occ ! i)) @ '','') @
          comma_separated (map quoted (drop (Suc i) (take pop occ)))"
        using "1.IH" [OF True refl refl] "1.prems" True more by (simp add: q)
      also have "\<dots> = json @ comma_separated (map quoted (drop i (take pop occ)))"
        using more "1.prems" unfolding dr by (simp add: comma_separated_Cons)
      finally show ?thesis .
    next
      case last: False
      have "apiGoats occ pop i json = apiGoats occ pop (Suc i) (json @ quoted (occ ! i))"
        using True last by (subst apiGoats.simps) (simp add: q)
      also have "\<dots> = (json @ quoted (occ ! i)) @
          comma_separated (map quoted (drop (Suc i) (take pop occ)))"
        using "1.IH" [OF True refl refl] "1.prems" True last by (simp add: q)
      also have "\<dots> = json @ comma_separated (map quoted (drop i (take pop occ)))"
        using last True "1.prems" unfolding dr by (simp add: comma_separated_Cons)
      finally show ?thesis .
    qed
  qed
qed

lemma motorGetStatus_token: "motorGetStatus m \<in> set status_tokens"
  by (cases m) (simp_all add: status_tokens_def)

text \<open>
  Claim C9. For every state whose population counter lies within the array,
  \<open>webHandleAPI\<close> answers 200, application/json with exactly the promised body: the
  count is the number of names listed, the names are the occupancy list in its order, and
  the door status is one of the six tokens.
\<close>

theorem webHandleAPI_body:
  assumes "barnPopulation s \<le> length (barnOccupants s)"
  shows "webHandleAPI s =
           (200, ''application/json'',
            status_json (length (occupancy s)) (motorGetStatus (motorState s)) (occupancy s)) \<and>
         length (occupancy s) = barnPopulation s \<and>
         motorGetStatus (motorState s) \<in> set status_tokens"
  using assms
  by (simp add: webHandleAPI_def status_json_def occupancy_def apiGoats_eq
      motorGetStatus_token Let_def)

text \<open>Claim C9 with Bron inside and the door opening.\<close>

theorem webHandleAPI_body_witness:
  \<open>barnPopulation auto_opening \<le> length (barnOccupants auto_opening) \<and>
   occupancy auto_opening = [''Bron''] \<and>
   motorState auto_opening = MOTOR_OPENING \<and>
   webHandleAPI auto_opening =
     (200, ''application/json'', ''{"count":1,"doorStatus":"opening","goats":["Bron"]}'')\<close>
proof -
  have st: "auto_opening =
      initial\<lparr>motor := \<lparr>currentPos = 0, targetPos = 1400\<rparr>,
        motorState := MOTOR_OPENING, motorStateStartTime := 7, motorMoveStartTime := 8,
        totalMoves := 1, lastCardStateR1 := True,
        barnOccupants := [''Bron'', [], [], [], [], [], [], [], [], []],
        barnPopulation := 1,
        serial := [LogRfidDetected 1 ''Bron'' (reader_uid bron_poll),
          LogBarnEntered ''Bron'' 1, LogMotorOpening]\<rparr>"
    by code_simp
  have le: "barnPopulation auto_opening \<le> length (barnOccupants auto_opening)"
    by (simp add: st)
  have occ: "occupancy auto_opening = [''Bron'']"
    by (simp add: st occupancy_def)
  have ms: "motorState auto_opening = MOTOR_OPENING"
    by (simp add: st)
  have one: "String_of_nat (Suc 0) = ''1''"
    by (subst String_of_nat.simps) (simp add: digit_def)
  show ?thesis
    using webHandleAPI_body [OF le] le occ ms
    by (simp add: status_json_def quoted_def one)
qed

section \<open>Access event dispatcher\<close>

lemma count_lines_Serial_print [simp]:
  "count_lines P (Serial_print l s) = count_lines P s + (if P l then 1 else 0)"
  by (simp add: count_lines_def Serial_print_def)

lemma count_lines_barnAddGoat [simp]:
  "count_lines is_detected (barnAddGoat name s) = count_lines is_detected s"
  "count_lines is_barn_event (barnAddGoat name s) = count_lines is_barn_event s + 1"
  "count_lines is_open_request (barnAddGoat name s) = count_lines is_open_request s"
  by (simp_all add: barnAddGoat_def count_lines_def Serial_print_def Let_def split: option.splits)

lemma count_lines_barnRemoveGoat [simp]:
  "count_lines is_detected (barnRemoveGoat name s) = count_lines is_detected s"
  "count_lines is_barn_event (barnRemoveGoat name s) = count_lines is_barn_event s + 1"
  "count_lines is_open_request (barnRemoveGoat name s) = count_lines is_open_request s"
  by (simp_all add: barnRemoveGoat_def count_lines_def Serial_print_def Let_def split: option.splits)

lemma count_lines_motorOpenDoor [simp]:
  "count_lines is_detected (motorOpenDoor t1 t2 s) = count_lines is_detected s"
  "count_lines is_barn_event (motorOpenDoor t1 t2 s) = count_lines is_barn_event s"
  "count_lines is_open_request (motorOpenDoor t1 t2 s) = count_lines is_open_request s + 1"
  by (simp_all add: motorOpenDoor_def count_lines_def Serial_print_def Let_def)

lemma occupancy_Serial_print [simp]: "occupancy (Serial_print l s) = occupancy s"
  by (simp add: occupancy_def)

lemma occupancy_motorOpenDoor [simp]: "occupancy (motorOpenDoor t1 t2 s) = occupancy s"
  by (simp add: occupancy_def motorOpenDoor_def Serial_print_def Let_def)

lemma occupancy_barnAddGoat_Serial_print [simp]:
  "occupancy (barnAddGoat name (Serial_print l s)) = occupancy (barnAddGoat name s)"
  by (simp add: occupancy_def barnAddGoat_def Serial_print_def Let_def split: option.splits)

lemma occupancy_barnRemoveGoat_Serial_print [simp]:
  "occupancy (barnRemoveGoat name (Serial_print l s)) = occupancy (barnRemoveGoat name s)"
  by (simp add: occupancy_def barnRemoveGoat_def Serial_print_def Let_def split: option.splits)

lemma rfidCheckReader_held:
  "cardPresent p \<Longrightarrow> rfidCheckReader p n t1 t2 (True, s) = (True, s)"
  by (simp add: rfidCheckReader_def)

lemma rfidPolls_held:
  "\<forall>q\<in>set ps. cardPresent (fst q) \<Longrightarrow> rfidPolls n ps (True, s) = (True, s)"
proof (induction ps)
  case Nil
  show ?case by simp
next
  case (Cons q ps)
  obtain p t1 t2 where q: "q = (p, t1, t2)" by (cases q) auto
  with Cons.prems have "cardPresent p" by simp
  with Cons q show ?case by (simp add: rfidCheckReader_held)
qed

lemma rfidCheckReader_rising_flag:
  "cardPresent p \<Longrightarrow> fst (rfidCheckReader p n t1 t2 (False, s)) = True"
  by (simp add: rfidCheckReader_def Let_def)

lemma rfidCheckReader_rising_counts:
  assumes "n = 1 \<or> n = 2" and "cardPresent p"
  shows "count_lines is_detected (snd (rfidCheckReader p n t1 t2 (False, s))) =
           count_lines is_detected s + 1"
    and "count_lines is_barn_event (snd (rfidCheckReader p n t1 t2 (False, s))) =
           count_lines is_barn_event s + 1"
    and "count_lines is_open_request (snd (rfidCheckReader p n t1 t2 (False, s))) =
           count_lines is_open_request s +
             (if \<not> manualMode s \<and> motorIsIdle s then 1 else 0)"
  using assms by (auto simp: rfidCheckReader_def Let_def motorIsIdle_def)

lemma rfidCheckReader_rising_occupancy:
  assumes "n = 1 \<or> n = 2" and "cardPresent p"
  shows "occupancy (snd (rfidCheckReader p n t1 t2 (False, s))) =
           occupancy
             (if n = 1
              then barnAddGoat
                (case rfidIdentifyGoat (reader_uid p) of Some g \<Rightarrow> g | None \<Rightarrow> ''UNKNOWN'') s
              else barnRemoveGoat
                (case rfidIdentifyGoat (reader_uid p) of Some g \<Rightarrow> g | None \<Rightarrow> ''UNKNOWN'') s)"
  using assms by (auto simp: rfidCheckReader_def Let_def)

lemma rfidCheckReader_absent:
  "\<not> cardPresent q \<Longrightarrow> rfidCheckReader q n u1 u2 (l, s) = (False, s)"
  by (simp add: rfidCheckReader_def)

text \<open>
  Claim C5. For reader 1 and reader 2, a run of consecutive polls that all report a card,
  begun with the channel flag cleared, has all its effect in its first poll: the flag is
  set, exactly one detection is logged, exactly one \<open>barnAddGoat\<close> or
  \<open>barnRemoveGoat\<close> call is made (the occupancy is that of one such call), and
  \<open>motorOpenDoor\<close> is called once if the door was idle and not in manual mode, and not
  at all otherwise. A poll that reports no card clears the flag and changes nothing else.
\<close>

theorem one_event_per_presence_run:
  assumes "readerNumber = 1 \<or> readerNumber = 2"
    and "cardPresent p"
    and "\<forall>q\<in>set ps. cardPresent (fst q)"
  shows "rfidPolls readerNumber ((p, t1, t2) # ps) (False, s) =
           rfidCheckReader p readerNumber t1 t2 (False, s) \<and>
         fst (rfidPolls readerNumber ((p, t1, t2) # ps) (False, s)) = True \<and>
         count_lines is_detected (snd (rfidPolls readerNumber ((p, t1, t2) # ps) (False, s))) =
           count_lines is_detected s + 1 \<and>
         count_lines is_barn_event (snd (rfidPolls readerNumber ((p, t1, t2) # ps) (False, s))) =
           count_lines is_barn_event s + 1 \<and>
         count_lines is_open_request (snd (rfidPolls readerNumber ((p, t1, t2) # ps) (False, s))) =
           count_lines is_open_request s + (if \<not> manualMode s \<and> motorIsIdle s then 1 else 0) \<and>
         occupancy (snd (rfidPolls readerNumber ((p, t1, t2) # ps) (False, s))) =
           occupancy
             (if readerNumber = 1
              then barnAddGoat
                (case rfidIdentifyGoat (reader_uid p) of Some g \<Rightarrow> g | None \<Rightarrow> ''UNKNOWN'') s
              else barnRemoveGoat
                (case rfidIdentifyGoat (reader_uid p) of Some g \<Rightarrow> g | None \<Rightarrow> ''UNKNOWN'') s) \<and>
         (\<not> cardPresent q \<longrightarrow> rfidCheckReader q readerNumber u1 u2 (l, s') = (False, s'))"
proof -
  obtain s1 where r: "rfidCheckReader p readerNumber t1 t2 (False, s) = (True, s1)"
    using rfidCheckReader_rising_flag [OF assms(2), of readerNumber t1 t2 s]
    by (cases "rfidCheckReader p readerNumber t1 t2 (False, s)") auto
  have run: "rfidPolls readerNumber ((p, t1, t2) # ps) (False, s) =
      rfidCheckReader p readerNumber t1 t2 (False, s)"
    using rfidPolls_held [OF assms(3), of readerNumber s1] by (simp add: r)
  show ?thesis
    unfolding run
    using rfidCheckReader_rising_flag [OF assms(2), of readerNumber t1 t2 s]
      rfidCheckReader_rising_counts [OF assms(1,2), of t1 t2 s]
      rfidCheckReader_rising_occupancy [OF assms(1,2), of t1 t2 s]
      rfidCheckReader_absent [of q readerNumber u1 u2 l s']
    by simp
qed

text \<open>Claim C5 for Bron's card held over reader 1 during three polls.\<close>

theorem one_event_per_presence_run_witness:
  "cardPresent bron_poll \<and>
   rfidPolls 1 [(bron_poll, 7, 8), (bron_poll, 9, 10), (bron_poll, 11, 12)] (False, initial) =
     rfidCheckReader bron_poll 1 7 8 (False, initial) \<and>
   occupancy (snd (rfidPolls 1 [(bron_poll, 7, 8), (bron_poll, 9, 10), (bron_poll, 11, 12)]
     (False, initial))) = [''Bron''] \<and>
   count_lines is_detected (snd (rfidPolls 1
     [(bron_poll, 7, 8), (bron_poll, 9, 10), (bron_poll, 11, 12)] (False, initial))) = 1 \<and>
   count_lines is_barn_event (snd (rfidPolls 1
     [(bron_poll, 7, 8), (bron_poll, 9, 10), (bron_poll, 11, 12)] (False, initial))) = 1 \<and>
   count_lines is_open_request (snd (rfidPolls 1
     [(bron_poll, 7, 8), (bron_poll, 9, 10), (bron_poll, 11, 12)] (False, initial))) = 1 \<and>
   \<not> cardPresent absent_poll \<and>
   rfidCheckReader absent_poll 1 13 14 (True, initial) = (False, initial)"
proof -
  have n: "(1::int) = 1 \<or> (1::int) = 2" by simp
  have c: "cardPresent bron_poll" by (simp add: cardPresent_def bron_poll_def)
  have cs: "\<forall>q\<in>set [(bron_poll, 9 :: ulong, 10 :: ulong), (bron_poll, 11, 12)]. cardPresent (fst q)"
    using c by simp
  have a: "\<not> cardPresent absent_poll" by (simp add: cardPresent_def absent_poll_def)
  have g: "rfidIdentifyGoat (reader_uid bron_poll) = Some ''Bron''"
    by code_simp
  have o: "occupancy (barnAddGoat ''Bron'' initial) = [''Bron'']"
    by code_simp
  have i: "count_lines is_detected initial = 0" "count_lines is_barn_event initial = 0"
    "count_lines is_open_request initial = 0" "\<not> manualMode initial" "motorIsIdle initial"
    by (simp_all add: count_lines_def initial_def motorIsIdle_def)
  show ?thesis
    using one_event_per_presence_run [OF n c cs, of 7 8 initial absent_poll 13 14 True initial]
      c a g o i
    by (simp del: rfidPolls.simps cong: conj_cong)
qed

section \<open>The manual flag\<close>

lemma motorOpenDoor_manualMode [simp]:
  "manualMode (motorOpenDoor t1 t2 s) = manualMode s"
  by (simp add: motorOpenDoor_def Let_def)

lemma motorUpdate_manualMode [simp]:
  "manualMode (motorUpdate run t1 t2 s) = manualMode s"
  by (simp add: motorUpdate_def Let_def split: MotorState_t.splits)

lemma rfidCheckReader_manualMode [simp]:
  "manualMode (snd (rfidCheckReader p n t1 t2 st)) = manualMode (snd st)"
  by (simp add: rfidCheckReader_def Let_def)

lemma motorCloseDoor_idle:
  "motorState s = MOTOR_IDLE \<Longrightarrow> motorCloseDoor t1 s = Serial_print LogMotorAlreadyClosed s"
  by (simp add: motorCloseDoor_def)

lemma fire_manualMode:
  "manualMode s \<Longrightarrow> (is_close e \<longrightarrow> motorState s = MOTOR_IDLE) \<Longrightarrow> manualMode (fire e s)"
  by (cases e)
     (simp_all add: webHandleDoorOpen_def webHandleDoorClose_def motorManualOpen_def
        motorManualClose_def motorCloseDoor_idle checkReader1_def checkReader2_def Let_def)

lemma fire_all_manualMode:
  "manualMode s \<Longrightarrow> no_accepted_close es s \<Longrightarrow> manualMode (fire_all es s)"
  by (induction es arbitrary: s) (simp_all add: fire_manualMode)

lemma rfidCheckReader_suppressed:
  "manualMode s \<Longrightarrow> cardPresent p \<Longrightarrow>
   motorState (snd (rfidCheckReader p n t1 t2 (False, s))) = motorState s \<and>
   motor (snd (rfidCheckReader p n t1 t2 (False, s))) = motor s \<and>
   totalMoves (snd (rfidCheckReader p n t1 t2 (False, s))) = totalMoves s \<and>
   last (serial (snd (rfidCheckReader p n t1 t2 (False, s)))) = LogRfidIgnored"
  by (simp add: rfidCheckReader_def Let_def)

text \<open>
  Claim C10. A manual open that is refused (door Opening, OpenHolding or Closing) changes
  nothing but the log and the manual flag, which it sets. An opening in progress then
  completes into ManualOpen. The flag stays set through every sequence of events in which
  no close command is accepted; while it is set, a newly detected card opens nothing and
  is logged as ignored. \<open>motorCloseDoor\<close> in state Idle returns without touching the
  flag; in every other state it clears it.
\<close>

theorem rejected_manual_open_sets_manualMode:
  "(motorState s = MOTOR_OPENING \<or> motorState s = MOTOR_OPEN_HOLDING \<or>
      motorState s = MOTOR_CLOSING \<longrightarrow>
      snd (webHandleDoorOpen t1 t2 s) =
        s\<lparr>manualMode := True, serial := serial s @ [LogMotorManualOpenCmd, LogMotorBusy]\<rparr>) \<and>
   (motorState s = MOTOR_OPENING \<and>
      distanceToGo (run (motor (snd (webHandleDoorOpen t1 t2 s)))) = 0 \<longrightarrow>
      motorState (motorUpdate run u1 u2 (snd (webHandleDoorOpen t1 t2 s))) = MOTOR_MANUAL_OPEN) \<and>
   (manualMode s \<and> no_accepted_close es s \<longrightarrow> manualMode (fire_all es s)) \<and>
   (manualMode s \<and> cardPresent p \<longrightarrow>
      motorState (snd (rfidCheckReader p n v1 v2 (False, s))) = motorState s \<and>
      motor (snd (rfidCheckReader p n v1 v2 (False, s))) = motor s \<and>
      totalMoves (snd (rfidCheckReader p n v1 v2 (False, s))) = totalMoves s \<and>
      last (serial (snd (rfidCheckReader p n v1 v2 (False, s)))) = LogRfidIgnored) \<and>
   (motorState s = MOTOR_IDLE \<longrightarrow>
      motorCloseDoor w1 s = s\<lparr>serial := serial s @ [LogMotorAlreadyClosed]\<rparr>) \<and>
   (motorState s \<noteq> MOTOR_IDLE \<longrightarrow> \<not> manualMode (motorCloseDoor w1 s))"
proof -
  have a: "motorState s = MOTOR_OPENING \<or> motorState s = MOTOR_OPEN_HOLDING \<or>
      motorState s = MOTOR_CLOSING \<longrightarrow>
      snd (webHandleDoorOpen t1 t2 s) =
        s\<lparr>manualMode := True, serial := serial s @ [LogMotorManualOpenCmd, LogMotorBusy]\<rparr>"
    by (auto simp: webHandleDoorOpen_def motorManualOpen_def motorOpenDoor_def
        Serial_print_def Let_def)
  have b: "motorState s = MOTOR_OPENING \<and>
      distanceToGo (run (motor (snd (webHandleDoorOpen t1 t2 s)))) = 0 \<longrightarrow>
      motorState (motorUpdate run u1 u2 (snd (webHandleDoorOpen t1 t2 s))) = MOTOR_MANUAL_OPEN"
    by (simp add: webHandleDoorOpen_def motorManualOpen_def motorOpenDoor_def
        motorUpdate_def Serial_print_def Let_def)
  have c: "manualMode s \<and> no_accepted_close es s \<longrightarrow> manualMode (fire_all es s)"
    by (simp add: fire_all_manualMode)
  have d: "manualMode s \<and> cardPresent p \<longrightarrow>
      motorState (snd (rfidCheckReader p n v1 v2 (False, s))) = motorState s \<and>
      motor (snd (rfidCheckReader p n v1 v2 (False, s))) = motor s \<and>
      totalMoves (snd (rfidCheckReader p n v1 v2 (False, s))) = totalMoves s \<and>
      last (serial (snd (rfidCheckReader p n v1 v2 (False, s)))) = LogRfidIgnored"
    using rfidCheckReader_suppressed [of s p n v1 v2] by blast
  have e: "motorState s = MOTOR_IDLE \<longrightarrow>
      motorCloseDoor w1 s = s\<lparr>serial := serial s @ [LogMotorAlreadyClosed]\<rparr>"
    by (simp add: motorCloseDoor_def Serial_print_def)
  have f: "motorState s \<noteq> MOTOR_IDLE \<longrightarrow> \<not> manualMode (motorCloseDoor w1 s)"
    by (simp add: motorCloseDoor_def Let_def)
  from a b c d e f show ?thesis by blast
qed

text \<open>
  Claim C10 on an automatic opening interrupted by a manual open, and on a manual open
  refused while the door was closing.
\<close>

theorem rejected_manual_open_sets_manualMode_witness:
  "motorState auto_opening = MOTOR_OPENING \<and>
   \<not> manualMode auto_opening \<and>
   manualMode (snd (webHandleDoorOpen 11 12 auto_opening)) \<and>
   motorState (snd (webHandleDoorOpen 11 12 auto_opening)) = MOTOR_OPENING \<and>
   distanceToGo (arrive 1400 (motor (snd (webHandleDoorOpen 11 12 auto_opening)))) = 0 \<and>
   motorState (motorUpdate (arrive 1400) 13 14 (snd (webHandleDoorOpen 11 12 auto_opening))) =
     MOTOR_MANUAL_OPEN \<and>
   motorState closing_flagged = MOTOR_CLOSING \<and>
   manualMode closing_flagged \<and>
   no_accepted_close [MotorUpdate id 5 6, MotorCloseDoor 7, CheckReader1 bron_poll 8 9]
     closing_flagged \<and>
   manualMode (fire_all [MotorUpdate id 5 6, MotorCloseDoor 7, CheckReader1 bron_poll 8 9]
     closing_flagged) \<and>
   \<not> manualMode (motorCloseDoor 15 closing_flagged) \<and>
   motorState idle_flagged = MOTOR_IDLE \<and>
   manualMode idle_flagged \<and>
   cardPresent bron_poll \<and>
   motorState (snd (rfidCheckReader bron_poll 1 8 9 (False, idle_flagged))) = MOTOR_IDLE \<and>
   totalMoves (snd (rfidCheckReader bron_poll 1 8 9 (False, idle_flagged))) = 0 \<and>
   last (serial (snd (rfidCheckReader bron_poll 1 8 9 (False, idle_flagged)))) = LogRfidIgnored \<and>
   manualMode (motorCloseDoor 7 idle_flagged)"
proof -
  have a: "motorState auto_opening = MOTOR_OPENING" "\<not> manualMode auto_opening"
    by code_simp+
  have d: "distanceToGo (arrive 1400 (motor (snd (webHandleDoorOpen 11 12 auto_opening)))) = 0"
    by (simp add: distanceToGo_def arrive_def)
  have c: "motorState closing_flagged = MOTOR_CLOSING" "manualMode closing_flagged"
    "no_accepted_close [MotorUpdate id 5 6, MotorCloseDoor 7, CheckReader1 bron_poll 8 9]
       closing_flagged"
    by code_simp+
  have i: "motorState idle_flagged = MOTOR_IDLE" "manualMode idle_flagged"
    "totalMoves idle_flagged = 0"
    by code_simp+
  have p: "cardPresent bron_poll"
    by (simp add: cardPresent_def bron_poll_def)
  note t1 = rejected_manual_open_sets_manualMode
    [where s = auto_opening and ?t1.0 = 11 and ?t2.0 = 12 and run = "arrive 1400"
       and ?u1.0 = 13 and ?u2.0 = 14]
  note t2 = rejected_manual_open_sets_manualMode
    [where s = closing_flagged and ?w1.0 = 15
       and es = "[MotorUpdate id 5 6, MotorCloseDoor 7, CheckReader1 bron_poll 8 9]"]
  note t3 = rejected_manual_open_sets_manualMode
    [where s = idle_flagged and p = bron_poll and n = 1 and ?v1.0 = 8 and ?v2.0 = 9
       and ?w1.0 = 7]
  have r1: "manualMode (snd (webHandleDoorOpen 11 12 auto_opening))"
    "motorState (snd (webHandleDoorOpen 11 12 auto_opening)) = MOTOR_OPENING"
    "motorState (motorUpdate (arrive 1400) 13 14 (snd (webHandleDoorOpen 11 12 auto_opening))) =
       MOTOR_MANUAL_OPEN"
    using t1 a d by (simp_all cong: conj_cong)
  have r2: "manualMode (fire_all [MotorUpdate id 5 6, MotorCloseDoor 7,
      CheckReader1 bron_poll 8 9] closing_flagged)"
    "\<not> manualMode (motorCloseDoor 15 closing_flagged)"
    using t2 c by (simp_all del: fire_all.simps no_accepted_close.simps cong: conj_cong)
  have r3: "motorState (snd (rfidCheckReader bron_poll 1 8 9 (False, idle_flagged))) = MOTOR_IDLE"
    "totalMoves (snd (rfidCheckReader bron_poll 1 8 9 (False, idle_flagged))) = 0"
    "last (serial (snd (rfidCheckReader bron_poll 1 8 9 (False, idle_flagged)))) = LogRfidIgnored"
    "manualMode (motorCloseDoor 7 idle_flagged)"
    using t3 i p by (simp_all cong: conj_cong)
  from a d c i p r1 r2 r3 show ?thesis
    by (simp del: fire_all.simps no_accepted_close.simps)
qed

end
